theory Spec2Isabelle
  imports Main "HOL-Library.AList"
begin

section \<open>Data model\<close>

text \<open>
  The front end of the stock-price predictor keeps its session in the React state of
  \<^verbatim>\<open>App\<close> and assembles the chart in \<^verbatim>\<open>StockChart.prepareChartData\<close>.
  JavaScript values that the code only copies and compares (dates, timestamps, prices)
  are values of one type \<open>'v\<close>; the stock-info payload, which the code only stores,
  is a value of type \<open>'i\<close>.
\<close>

record stock =
  symbol :: string
  name :: string

text \<open>One forecast as the prediction endpoint returns it (\<^verbatim>\<open>result.data.predictions\<close>).\<close>

record 'v forecast =
  p_dates :: "'v list"
  predicted_prices :: "'v list"
  lower_bounds :: "'v list"
  upper_bounds :: "'v list"

text \<open>
  The \<^verbatim>\<open>predictions\<close> object: model name to forecast. A JavaScript object keeps its
  string keys in insertion order and a key at most once, so it is an association list
  written through \<open>AList.update\<close> (an existing key keeps its place, a new one goes last).
\<close>

type_synonym 'v prediction_map = "(string \<times> 'v forecast) list"

record 'v historical =
  dates :: "'v list"
  close :: "'v list"

text \<open>The payload of a \<^verbatim>\<open>stock_update\<close> socket message; \<^verbatim>\<open>data.predictions\<close> may be absent.\<close>

record 'v tick =
  t_symbol :: string
  timestamp :: 'v
  price :: 'v
  change :: 'v
  t_predictions :: "'v prediction_map option"

text \<open>The \<^verbatim>\<open>useState\<close> cells of \<^verbatim>\<open>App\<close> (the socket cell is kept with the calls below).\<close>

record ('v, 'i) app_state =
  selectedStock :: "stock option"
  stockData :: "'v historical option"
  stockInfo :: "'i option"
  predictions :: "'v prediction_map"
  loading :: bool
  error :: "string option"
  realTimeData :: "'v tick list"

definition app_init :: "('v, 'i) app_state" where
  "app_init = \<lparr>selectedStock = None, stockData = None, stockInfo = None, predictions = [],
     loading = False, error = None, realTimeData = []\<rparr>"

section \<open>JavaScript helpers\<close>

text \<open>
  \<^verbatim>\<open>Array.prototype.slice(start)\<close> with one argument: a negative \<open>start\<close> counts from
  the end and is clamped at 0, a \<open>start\<close> beyond the length gives the empty array.
\<close>

definition js_slice :: "'a list \<Rightarrow> int \<Rightarrow> 'a list" where
  "js_slice xs start =
     (let len = int (length xs);
          k = (if start < 0 then max (len + start) 0 else min start len)
      in drop (nat k) xs)"

text \<open>Object spread \<^verbatim>\<open>{...a, ...b}\<close>: a fresh object receives the entries of \<open>a\<close>, then of \<open>b\<close>.\<close>

definition assign :: "('k \<times> 'w) list \<Rightarrow> ('k \<times> 'w) list \<Rightarrow> ('k \<times> 'w) list" where
  "assign target src = foldl (\<lambda>acc kv. AList.update (fst kv) (snd kv) acc) target src"

definition spread2 :: "('k \<times> 'w) list \<Rightarrow> ('k \<times> 'w) list \<Rightarrow> ('k \<times> 'w) list" where
  "spread2 a b = assign (assign [] a) b"

section \<open>The live feed listener\<close>

text \<open>
  The updater passed to \<^verbatim>\<open>setRealTimeData\<close>:
  \<^verbatim>\<open>const newData = [...prevData, data];
  if (newData.length > 100) return newData.slice(newData.length - 100);
  return newData;\<close>
\<close>

definition push_tick :: "'v tick \<Rightarrow> 'v tick list \<Rightarrow> 'v tick list" where
  "push_tick d prevData =
     (let newData = prevData @ [d]
      in if length newData > 100 then js_slice newData (int (length newData) - 100)
         else newData)"

text \<open>
  The \<^verbatim>\<open>stock_update\<close> listener. It is registered again whenever \<^verbatim>\<open>selectedStock\<close>
  changes, so it reads the current selection.
\<close>

definition stock_update :: "'v tick \<Rightarrow> ('v, 'i) app_state \<Rightarrow> ('v, 'i) app_state" where
  "stock_update d s =
     (case selectedStock s of
        None \<Rightarrow> s
      | Some sel \<Rightarrow>
          if t_symbol d = symbol sel then
            (let s1 = s\<lparr>realTimeData := push_tick d (realTimeData s)\<rparr>
             in case t_predictions d of
                  None \<Rightarrow> s1
                | Some p \<Rightarrow> s1\<lparr>predictions := spread2 (predictions s1) p\<rparr>)
          else s)"

text \<open>The \<^verbatim>\<open>connect_error\<close> listener.\<close>

definition connect_error :: "('v, 'i) app_state \<Rightarrow> ('v, 'i) app_state" where
  "connect_error s =
     s\<lparr>error := Some ''Failed to connect to the server. Please try again later.''\<rparr>"

section \<open>Selecting a stock\<close>

text \<open>The requests \<^verbatim>\<open>handleStockSelect\<close> sends: the three API calls and the socket message.\<close>

datatype request =
    GetStockHistory string
  | GetStockInfo string
  | TrackStock string
  | PredictStock string string nat

text \<open>How an awaited promise settles.\<close>

datatype 'a settled = Rejected | Fulfilled 'a

text \<open>
  What \<^verbatim>\<open>predictStock\<close> resolves to: the body of the response, or, when the request
  fails, \<^verbatim>\<open>{ success: false, error: error.message }\<close> (it never rejects). The message
  is only logged and is left out.
\<close>

record 'v result_data =
  r_predictions :: "'v forecast option"

record 'v prediction_result =
  success :: bool
  data :: "'v result_data option"

definition predict_failed :: "'v prediction_result" where
  "predict_failed = \<lparr>success = False, data = None\<rparr>"

definition predict_ok :: "'v forecast \<Rightarrow> 'v prediction_result" where
  "predict_ok f = \<lparr>success = True, data = Some \<lparr>r_predictions = Some f\<rparr>\<rparr>"

definition models :: "string list" where
  "models = [''arima'', ''prophet'', ''ml'']"

text \<open>The test \<^verbatim>\<open>result.success && result.data && result.data.predictions\<close>, with its value.\<close>

definition usable :: "'v prediction_result \<Rightarrow> 'v forecast option" where
  "usable result =
     (if success result then
        (case data result of None \<Rightarrow> None | Some d \<Rightarrow> r_predictions d)
      else None)"

text \<open>
  The \<^verbatim>\<open>forEach\<close> that fills \<^verbatim>\<open>predictionsByModel\<close>. \<^verbatim>\<open>Promise.all\<close> returns one
  result per model, in the order of \<^verbatim>\<open>models\<close>.
\<close>

definition predictionsByModel ::
  "string list \<Rightarrow> 'v prediction_result list \<Rightarrow> 'v prediction_map" where
  "predictionsByModel ms predictionResults =
     foldl (\<lambda>acc mr. case usable (snd mr) of
                         Some p \<Rightarrow> AList.update (fst mr) p acc
                       | None \<Rightarrow> acc)
       [] (zip ms predictionResults)"

text \<open>
  \<^verbatim>\<open>handleStockSelect\<close> is an async function: it runs up to its first \<^verbatim>\<open>await\<close>, and
  each later part runs when the awaited promise settles, on the state as it is then.
\<close>

datatype stage = AwaitHistory | AwaitInfo | AwaitPredictions | Finished

definition handleStockSelect_begin ::
  "stock \<Rightarrow> ('v, 'i) app_state \<Rightarrow> ('v, 'i) app_state \<times> request list" where
  "handleStockSelect_begin stk s =
     (s\<lparr>loading := True, error := None, selectedStock := Some stk,
        stockData := None, stockInfo := None, predictions := [], realTimeData := []\<rparr>,
      [GetStockHistory (symbol stk)])"

text \<open>The \<^verbatim>\<open>catch\<close> block followed by \<^verbatim>\<open>finally\<close>.\<close>

definition handleStockSelect_catch :: "('v, 'i) app_state \<Rightarrow> ('v, 'i) app_state" where
  "handleStockSelect_catch s =
     s\<lparr>error := Some ''Failed to fetch stock data. Please try again.'', loading := False\<rparr>"

definition handleStockSelect_history ::
  "stock \<Rightarrow> 'v historical option settled \<Rightarrow> ('v, 'i) app_state
     \<Rightarrow> ('v, 'i) app_state \<times> request list \<times> stage" where
  "handleStockSelect_history stk historyResponse s =
     (case historyResponse of
        Rejected \<Rightarrow> (handleStockSelect_catch s, [], Finished)
      | Fulfilled d \<Rightarrow> (s\<lparr>stockData := d\<rparr>, [GetStockInfo (symbol stk)], AwaitInfo))"

definition handleStockSelect_info ::
  "stock \<Rightarrow> bool \<Rightarrow> 'i option settled \<Rightarrow> ('v, 'i) app_state
     \<Rightarrow> ('v, 'i) app_state \<times> request list \<times> stage" where
  "handleStockSelect_info stk has_socket infoResponse s =
     (case infoResponse of
        Rejected \<Rightarrow> (handleStockSelect_catch s, [], Finished)
      | Fulfilled i \<Rightarrow>
          (s\<lparr>stockInfo := i\<rparr>,
           (if has_socket then [TrackStock (symbol stk)] else [])
             @ map (\<lambda>model. PredictStock (symbol stk) model 7) models,
           AwaitPredictions))"

definition handleStockSelect_predictions ::
  "'v prediction_result list \<Rightarrow> ('v, 'i) app_state \<Rightarrow> ('v, 'i) app_state" where
  "handleStockSelect_predictions predictionResults s =
     (let byModel = predictionsByModel models predictionResults;
          s1 = s\<lparr>predictions := byModel\<rparr>;
          s2 = (if length (map fst byModel) = 0
                then s1\<lparr>error := Some ''Failed to generate predictions. Please try a different stock or try again later.''\<rparr>
                else s1)
      in s2\<lparr>loading := False\<rparr>)"

section \<open>The event loop\<close>

text \<open>
  JavaScript runs one handler at a time. An event is the mount effect that creates the
  socket, a call of \<^verbatim>\<open>handleStockSelect\<close>, the settling of a promise an activation
  awaits, or a socket message; each runs to its end (or to the next \<^verbatim>\<open>await\<close>) on the
  state as it is then. Nothing in the code cancels an activation, so an earlier one goes
  on when its promise settles, whatever has been selected since.

  One activation of \<^verbatim>\<open>handleStockSelect\<close>: the stock and the socket its closure holds,
  and where it is suspended. Activations are numbered in the order of the calls, and the
  requests each one sends are logged under its number.
\<close>

record call =
  c_stock :: stock
  c_socket :: bool
  c_stage :: stage

record ('v, 'i) sys =
  app :: "('v, 'i) app_state"
  socket :: bool
  calls :: "call list"
  sent :: "(nat \<times> request) list"

definition sys_init :: "('v, 'i) sys" where
  "sys_init = \<lparr>app = app_init, socket = False, calls = [], sent = []\<rparr>"

datatype ('v, 'i) event =
    Connect
  | Select stock
  | HistoryDone nat "'v historical option settled"
  | InfoDone nat "'i option settled"
  | PredictionsDone nat "'v prediction_result list"
  | StockUpdate "'v tick"
  | ConnectError

definition resume ::
  "nat \<Rightarrow> stage \<Rightarrow> (call \<Rightarrow> ('v, 'i) app_state \<Rightarrow> ('v, 'i) app_state \<times> request list \<times> stage)
     \<Rightarrow> ('v, 'i) sys \<Rightarrow> ('v, 'i) sys" where
  "resume c st k \<sigma> =
     (if c < length (calls \<sigma>) \<and> c_stage (calls \<sigma> ! c) = st then
        (let cl = calls \<sigma> ! c; r = k cl (app \<sigma>)
         in \<sigma>\<lparr>app := fst r,
              calls := (calls \<sigma>)[c := cl\<lparr>c_stage := snd (snd r)\<rparr>],
              sent := sent \<sigma> @ map (Pair c) (fst (snd r))\<rparr>)
      else \<sigma>)"

text \<open>
  The socket listeners are registered only once the socket exists. A response resumes its
  activation only where that activation is waiting for it.
\<close>

fun sys_step :: "('v, 'i) event \<Rightarrow> ('v, 'i) sys \<Rightarrow> ('v, 'i) sys" where
  "sys_step Connect \<sigma> = \<sigma>\<lparr>socket := True\<rparr>"
| "sys_step (Select stk) \<sigma> =
     (let r = handleStockSelect_begin stk (app \<sigma>); c = length (calls \<sigma>)
      in \<sigma>\<lparr>app := fst r,
           calls := calls \<sigma> @ [\<lparr>c_stock = stk, c_socket = socket \<sigma>, c_stage = AwaitHistory\<rparr>],
           sent := sent \<sigma> @ map (Pair c) (snd r)\<rparr>)"
| "sys_step (HistoryDone c historyResponse) \<sigma> =
     resume c AwaitHistory (\<lambda>cl. handleStockSelect_history (c_stock cl) historyResponse) \<sigma>"
| "sys_step (InfoDone c infoResponse) \<sigma> =
     resume c AwaitInfo (\<lambda>cl. handleStockSelect_info (c_stock cl) (c_socket cl) infoResponse) \<sigma>"
| "sys_step (PredictionsDone c predictionResults) \<sigma> =
     resume c AwaitPredictions
       (\<lambda>cl s. (handleStockSelect_predictions predictionResults s, [], Finished)) \<sigma>"
| "sys_step (StockUpdate d) \<sigma> =
     (if socket \<sigma> then \<sigma>\<lparr>app := stock_update d (app \<sigma>)\<rparr> else \<sigma>)"
| "sys_step ConnectError \<sigma> =
     (if socket \<sigma> then \<sigma>\<lparr>app := connect_error (app \<sigma>)\<rparr> else \<sigma>)"

definition run :: "('v, 'i) event list \<Rightarrow> ('v, 'i) sys \<Rightarrow> ('v, 'i) sys" where
  "run evs \<sigma> = foldl (\<lambda>\<sigma> e. sys_step e \<sigma>) \<sigma> evs"

section \<open>Assembling the chart\<close>

text \<open>
  The value \<^verbatim>\<open>prepareChartData\<close> returns. Of a dataset the label, the data and the axis
  are kept (the other fields are constant styling); \<open>Prediction m\<close> stands for the label
  built from the upper-cased model name \<open>m\<close>.
\<close>

datatype ds_label = HistoricalPrice | Prediction string | ConfidenceInterval | LowerBound

record 'v dataset =
  label :: ds_label
  d_data :: "'v list"
  xAxisID :: "string option"

record 'v chart_data =
  labels :: "'v list"
  datasets :: "'v dataset list"
  predictionDates :: "'v list"

text \<open>
  The time-range filter: \<^verbatim>\<open>cutoff = filteredDates.length - N\<close>, then both arrays are
  sliced from \<^verbatim>\<open>cutoff\<close>. Any range other than \<^verbatim>\<open>'1m'\<close>, \<^verbatim>\<open>'3m'\<close>, \<^verbatim>\<open>'6m'\<close> keeps everything.
\<close>

definition filter_range :: "string \<Rightarrow> 'a list \<Rightarrow> 'b list \<Rightarrow> 'a list \<times> 'b list" where
  "filter_range timeRange filteredDates filteredPrices =
     (if timeRange = ''1m'' then
        (let cutoff = int (length filteredDates) - 30
         in (js_slice filteredDates cutoff, js_slice filteredPrices cutoff))
      else if timeRange = ''3m'' then
        (let cutoff = int (length filteredDates) - 90
         in (js_slice filteredDates cutoff, js_slice filteredPrices cutoff))
      else if timeRange = ''6m'' then
        (let cutoff = int (length filteredDates) - 180
         in (js_slice filteredDates cutoff, js_slice filteredPrices cutoff))
      else (filteredDates, filteredPrices))"

text \<open>The \<^verbatim>\<open>forEach\<close> that pushes each tick's timestamp and price.\<close>

definition add_real_time :: "'v tick list \<Rightarrow> 'v list \<times> 'v list \<Rightarrow> 'v list \<times> 'v list" where
  "add_real_time rtData acc =
     foldl (\<lambda>fp d. (fst fp @ [timestamp d], snd fp @ [price d])) acc rtData"

definition prediction_datasets :: "string \<Rightarrow> 'v forecast \<Rightarrow> 'v dataset list" where
  "prediction_datasets selectedModel predictionData =
     [\<lparr>label = Prediction selectedModel, d_data = predicted_prices predictionData,
        xAxisID = Some ''x2''\<rparr>,
      \<lparr>label = ConfidenceInterval, d_data = upper_bounds predictionData, xAxisID = Some ''x2''\<rparr>,
      \<lparr>label = LowerBound, d_data = lower_bounds predictionData, xAxisID = Some ''x2''\<rparr>]"

text \<open>
  \<^verbatim>\<open>prepareChartData\<close>. The props may be null (\<open>None\<close>); the component state it reads
  (\<^verbatim>\<open>timeRange\<close>, \<^verbatim>\<open>showPredictions\<close>, \<^verbatim>\<open>selectedModel\<close>) is passed in.
\<close>

definition prepareChartData ::
  "'v historical option \<Rightarrow> 'v tick list option \<Rightarrow> 'v prediction_map option
     \<Rightarrow> string \<Rightarrow> bool \<Rightarrow> string \<Rightarrow> 'v chart_data option" where
  "prepareChartData historicalData rtData preds timeRange showPredictions selectedModel =
     (case historicalData of
        None \<Rightarrow> None
      | Some h \<Rightarrow>
          (let filtered = filter_range timeRange (dates h) (close h);
               filtered = (case rtData of
                             None \<Rightarrow> filtered
                           | Some rt \<Rightarrow> if length rt > 0 then add_real_time rt filtered
                                        else filtered);
               chosen = (case preds of None \<Rightarrow> None | Some p \<Rightarrow> map_of p selectedModel)
           in Some \<lparr>labels = fst filtered,
                    datasets =
                      \<lparr>label = HistoricalPrice, d_data = snd filtered, xAxisID = None\<rparr>
                      # (if showPredictions then
                           (case chosen of
                              None \<Rightarrow> []
                            | Some predictionData \<Rightarrow>
                                prediction_datasets selectedModel predictionData)
                         else []),
                    predictionDates = (case chosen of None \<Rightarrow> [] | Some pd \<Rightarrow> p_dates pd)\<rparr>))"

section \<open>Example data\<close>

definition aapl :: stock where
  "aapl = \<lparr>symbol = ''AAPL'', name = ''Apple Inc.''\<rparr>"

definition msft :: stock where
  "msft = \<lparr>symbol = ''MSFT'', name = ''Microsoft''\<rparr>"

definition aapl_tick :: "nat \<Rightarrow> nat tick" where
  "aapl_tick n =
     \<lparr>t_symbol = ''AAPL'', timestamp = n, price = 0, change = 0, t_predictions = None\<rparr>"

definition week :: "nat forecast" where
  "week = \<lparr>p_dates = [253, 254, 255], predicted_prices = [10, 11, 12],
            lower_bounds = [9, 9, 9], upper_bounds = [13, 13, 13]\<rparr>"

section \<open>Observing the event loop\<close>

text \<open>The requests one activation has sent, in order.\<close>

definition sent_by :: "nat \<Rightarrow> ('v, 'i) sys \<Rightarrow> request list" where
  "sent_by c \<sigma> = map snd (filter (\<lambda>cr. fst cr = c) (sent \<sigma>))"

text \<open>Every buffered tick carries the symbol of the selected stock.\<close>

definition buffer_matches :: "('v, 'i) app_state \<Rightarrow> bool" where
  "buffer_matches s =
     list_all (\<lambda>t. case selectedStock s of
                       None \<Rightarrow> False
                     | Some sel \<Rightarrow> t_symbol t = symbol sel)
       (realTimeData s)"

text \<open>Example traces.\<close>

definition year :: "nat historical" where
  "year = \<lparr>dates = [1 ..< 253], close = map (\<lambda>n. 100 + n) [1 ..< 253]\<rparr>"

definition stale_trace :: "(nat, unit) event list" where
  "stale_trace =
     [Connect, Select aapl, Select msft,
      HistoryDone 0 (Fulfilled (Some year)), InfoDone 0 (Fulfilled None),
      PredictionsDone 0 [predict_ok week, predict_failed, predict_failed]]"

definition reselect_trace :: "(nat, unit) event list" where
  "reselect_trace =
     [Connect, Select aapl,
      HistoryDone 0 (Fulfilled (Some year)), InfoDone 0 (Fulfilled None),
      Select aapl, StockUpdate (aapl_tick 7)]"

text \<open>Every logged request belongs to an activation that exists.\<close>

definition sent_bounded :: "('v, 'i) sys \<Rightarrow> bool" where
  "sent_bounded \<sigma> \<longleftrightarrow> (\<forall>cr\<in>set (sent \<sigma>). fst cr < length (calls \<sigma>))"

section \<open>Reading the props\<close>

text \<open>The ticks \<^verbatim>\<open>prepareChartData\<close> appends: none when the prop is null.\<close>

definition live_ticks :: "'v tick list option \<Rightarrow> 'v tick list" where
  "live_ticks rtData = (case rtData of None \<Rightarrow> [] | Some rt \<Rightarrow> rt)"

section \<open>Arrays in a store\<close>

text \<open>
  \<^verbatim>\<open>prepareChartData\<close> copies its input arrays and pushes onto the copies. To say that the
  inputs are left as they were, the arrays live in a store: a reference is an index, a
  spread or a slice allocates a new array, \<^verbatim>\<open>push\<close> updates one in place. The tick
  objects are only read and stay values.
\<close>

type_synonym 'v store = "'v list list"

type_synonym ref = nat

definition alloc :: "'v list \<Rightarrow> 'v store \<Rightarrow> ref \<times> 'v store" where
  "alloc xs st = (length st, st @ [xs])"

definition push :: "ref \<Rightarrow> 'v \<Rightarrow> 'v store \<Rightarrow> 'v store" where
  "push r v st = st[r := st ! r @ [v]]"

record historical_refs =
  dates_ref :: ref
  close_ref :: ref

record forecast_refs =
  p_dates_ref :: ref
  predicted_prices_ref :: ref
  lower_bounds_ref :: ref
  upper_bounds_ref :: ref

record dataset_refs =
  label_r :: ds_label
  d_data_ref :: ref
  xAxisID_r :: "string option"

record chart_refs =
  labels_ref :: ref
  datasets_r :: "dataset_refs list"
  predictionDates_ref :: ref

text \<open>Both arrays are sliced from the same \<^verbatim>\<open>cutoff\<close>; each slice is a new array.\<close>

definition slice_both :: "int \<Rightarrow> ref \<Rightarrow> ref \<Rightarrow> 'v store \<Rightarrow> (ref \<times> ref) \<times> 'v store" where
  "slice_both cutoff filteredDates filteredPrices st =
     (let a = alloc (js_slice (st ! filteredDates) cutoff) st;
          b = alloc (js_slice (snd a ! filteredPrices) cutoff) (snd a)
      in ((fst a, fst b), snd b))"

definition filter_range_st :: "string \<Rightarrow> ref \<Rightarrow> ref \<Rightarrow> 'v store \<Rightarrow> (ref \<times> ref) \<times> 'v store" where
  "filter_range_st timeRange filteredDates filteredPrices st =
     (if timeRange = ''1m'' then
        slice_both (int (length (st ! filteredDates)) - 30) filteredDates filteredPrices st
      else if timeRange = ''3m'' then
        slice_both (int (length (st ! filteredDates)) - 90) filteredDates filteredPrices st
      else if timeRange = ''6m'' then
        slice_both (int (length (st ! filteredDates)) - 180) filteredDates filteredPrices st
      else ((filteredDates, filteredPrices), st))"

definition add_real_time_st :: "'v tick list \<Rightarrow> ref \<Rightarrow> ref \<Rightarrow> 'v store \<Rightarrow> 'v store" where
  "add_real_time_st rtData filteredDates filteredPrices st =
     foldl (\<lambda>st d. push filteredPrices (price d) (push filteredDates (timestamp d) st)) st rtData"

definition prediction_datasets_st :: "string \<Rightarrow> forecast_refs \<Rightarrow> dataset_refs list" where
  "prediction_datasets_st selectedModel predictionData =
     [\<lparr>label_r = Prediction selectedModel, d_data_ref = predicted_prices_ref predictionData,
        xAxisID_r = Some ''x2''\<rparr>,
      \<lparr>label_r = ConfidenceInterval, d_data_ref = upper_bounds_ref predictionData,
        xAxisID_r = Some ''x2''\<rparr>,
      \<lparr>label_r = LowerBound, d_data_ref = lower_bounds_ref predictionData,
        xAxisID_r = Some ''x2''\<rparr>]"

text \<open>
  \<^verbatim>\<open>prepareChartData\<close> on the store: the two spreads, the filter, the pushes, and the
  returned object, whose arrays are references (the forecast arrays are the input's own;
  \<^verbatim>\<open>[]\<close> is a new array).
\<close>

definition prepareChartData_st ::
  "historical_refs option \<Rightarrow> 'v tick list option \<Rightarrow> (string \<times> forecast_refs) list option
     \<Rightarrow> string \<Rightarrow> bool \<Rightarrow> string \<Rightarrow> 'v store \<Rightarrow> chart_refs option \<times> 'v store" where
  "prepareChartData_st historicalData rtData preds timeRange showPredictions selectedModel st =
     (case historicalData of
        None \<Rightarrow> (None, st)
      | Some h \<Rightarrow>
          (let a = alloc (st ! dates_ref h) st;
               b = alloc (snd a ! close_ref h) (snd a);
               c = filter_range_st timeRange (fst a) (fst b) (snd b);
               filteredDates = fst (fst c);
               filteredPrices = snd (fst c);
               st1 = (case rtData of
                        None \<Rightarrow> snd c
                      | Some rt \<Rightarrow>
                          if length rt > 0
                          then add_real_time_st rt filteredDates filteredPrices (snd c)
                          else snd c);
               chosen = (case preds of None \<Rightarrow> None | Some p \<Rightarrow> map_of p selectedModel);
               e = (case chosen of None \<Rightarrow> alloc [] st1 | Some pd \<Rightarrow> (p_dates_ref pd, st1))
           in (Some \<lparr>labels_ref = filteredDates,
                     datasets_r =
                       \<lparr>label_r = HistoricalPrice, d_data_ref = filteredPrices, xAxisID_r = None\<rparr>
                       # (if showPredictions then
                            (case chosen of
                               None \<Rightarrow> []
                             | Some predictionData \<Rightarrow>
                                 prediction_datasets_st selectedModel predictionData)
                          else []),
                     predictionDates_ref = fst e\<rparr>,
               snd e)))"

text \<open>What the references hold.\<close>

definition read_historical :: "'v store \<Rightarrow> historical_refs \<Rightarrow> 'v historical" where
  "read_historical st h = \<lparr>dates = st ! dates_ref h, close = st ! close_ref h\<rparr>"

definition read_forecast :: "'v store \<Rightarrow> forecast_refs \<Rightarrow> 'v forecast" where
  "read_forecast st f =
     \<lparr>p_dates = st ! p_dates_ref f, predicted_prices = st ! predicted_prices_ref f,
      lower_bounds = st ! lower_bounds_ref f, upper_bounds = st ! upper_bounds_ref f\<rparr>"

definition read_predictions :: "'v store \<Rightarrow> (string \<times> forecast_refs) list \<Rightarrow> 'v prediction_map" where
  "read_predictions st p = map (\<lambda>kf. (fst kf, read_forecast st (snd kf))) p"

definition read_dataset :: "'v store \<Rightarrow> dataset_refs \<Rightarrow> 'v dataset" where
  "read_dataset st d = \<lparr>label = label_r d, d_data = st ! d_data_ref d, xAxisID = xAxisID_r d\<rparr>"

definition read_chart :: "'v store \<Rightarrow> chart_refs \<Rightarrow> 'v chart_data" where
  "read_chart st c =
     \<lparr>labels = st ! labels_ref c, datasets = map (read_dataset st) (datasets_r c),
      predictionDates = st ! predictionDates_ref c\<rparr>"

text \<open>The input references point into the store.\<close>

definition forecast_in :: "'v store \<Rightarrow> forecast_refs \<Rightarrow> bool" where
  "forecast_in st f \<longleftrightarrow>
     p_dates_ref f < length st \<and> predicted_prices_ref f < length st \<and>
     lower_bounds_ref f < length st \<and> upper_bounds_ref f < length st"

definition inputs_in ::
  "'v store \<Rightarrow> historical_refs option \<Rightarrow> (string \<times> forecast_refs) list option \<Rightarrow> bool" where
  "inputs_in st historicalData preds \<longleftrightarrow>
     (case historicalData of None \<Rightarrow> True
      | Some h \<Rightarrow> dates_ref h < length st \<and> close_ref h < length st) \<and>
     (case preds of None \<Rightarrow> True | Some p \<Rightarrow> list_all (\<lambda>kf. forecast_in st (snd kf)) p)"

text \<open>Example chart inputs.\<close>

definition month20 :: "nat historical" where
  "month20 = \<lparr>dates = [1 ..< 21], close = map (\<lambda>n. 100 + n) [1 ..< 21]\<rparr>"

definition two_days :: "nat historical" where
  "two_days = \<lparr>dates = [1, 2], close = [100, 101]\<rparr>"

definition late_forecast :: "nat forecast" where
  "late_forecast = \<lparr>p_dates = [3, 4], predicted_prices = [102, 103],
     lower_bounds = [100, 100], upper_bounds = [105, 106]\<rparr>"

definition store0 :: "nat store" where
  "store0 = [[1, 2, 3], [100, 101, 102], [6, 7], [103, 104], [101, 101], [105, 106]]"

definition hist0 :: historical_refs where
  "hist0 = \<lparr>dates_ref = 0, close_ref = 1\<rparr>"

definition preds0 :: "(string \<times> forecast_refs) list" where
  "preds0 = [(''arima'', \<lparr>p_dates_ref = 2, predicted_prices_ref = 3,
                          lower_bounds_ref = 4, upper_bounds_ref = 5\<rparr>)]"

section \<open>Observing activations\<close>

text \<open>
  Activation \<open>c\<close>, started for \<open>stk\<close>, is still waiting for its history and has sent
  nothing but the history request.
\<close>

definition awaiting_history :: "nat \<Rightarrow> stock \<Rightarrow> ('v, 'i) sys \<Rightarrow> bool" where
  "awaiting_history c stk \<sigma> \<longleftrightarrow>
     c < length (calls \<sigma>) \<and> c_stock (calls \<sigma> ! c) = stk \<and>
     c_stage (calls \<sigma> ! c) = AwaitHistory \<and> sent_by c \<sigma> = [GetStockHistory (symbol stk)]"

text \<open>The cells as \<^verbatim>\<open>handleStockSelect\<close> leaves them before its first \<^verbatim>\<open>await\<close>.\<close>

definition freshly_reset :: "stock \<Rightarrow> ('v, 'i) app_state \<Rightarrow> bool" where
  "freshly_reset stk s \<longleftrightarrow>
     selectedStock s = Some stk \<and> stockData s = None \<and> stockInfo s = None \<and>
     predictions s = [] \<and> realTimeData s = []"



definition aborted_trace :: "(nat, unit) event list" where
  "aborted_trace =
     [Connect, Select aapl,
      HistoryDone 0 (Fulfilled (Some year)), InfoDone 0 (Fulfilled None),
      Select aapl, Select aapl,
      HistoryDone 1 (Fulfilled (Some year)), InfoDone 1 (Fulfilled (Some ())),
      StockUpdate (aapl_tick 7),
      PredictionsDone 0 [predict_ok week, predict_failed, predict_failed],
      HistoryDone 2 Rejected]"

definition tracked_trace :: "(nat, unit) event list" where
  "tracked_trace =
     [Connect, Select aapl,
      HistoryDone 0 (Fulfilled (Some year)), InfoDone 0 (Fulfilled None)]"

section \<open>Basic facts\<close>

lemma run_Nil: "run [] \<sigma> = \<sigma>"
  by (simp add: run_def)

lemma run_Cons: "run (e # evs) \<sigma> = run evs (sys_step e \<sigma>)"
  by (simp add: run_def)

lemma run_snoc: "run (evs @ [e]) \<sigma> = sys_step e (run evs \<sigma>)"
  by (simp add: run_def)

lemma js_slice_nonneg: "0 \<le> k \<Longrightarrow> js_slice xs k = drop (nat k) xs"
  by (simp add: js_slice_def Let_def min_def)

lemma push_tick_drop: "push_tick d xs = drop (length (xs @ [d]) - 100) (xs @ [d])"
  by (simp add: push_tick_def Let_def js_slice_nonneg nat_diff_distrib' del: drop_append)

lemma length_push_tick: "length (push_tick d xs) \<le> 100"
  by (simp add: push_tick_drop del: drop_append)

lemma keep_last_append:
  "drop (length (drop (length a - n) a @ b) - n) (drop (length a - n) a @ b)
     = drop (length (a @ b) - n) (a @ b)"
  by (cases "length a \<le> n") (auto simp: add.commute)

lemma realTimeData_stock_update:
  "realTimeData (stock_update d s) =
     (case selectedStock s of
        None \<Rightarrow> realTimeData s
      | Some sel \<Rightarrow> if t_symbol d = symbol sel then push_tick d (realTimeData s)
                    else realTimeData s)"
  by (simp add: stock_update_def Let_def split: option.splits)

lemma selectedStock_stock_update: "selectedStock (stock_update d s) = selectedStock s"
  by (simp add: stock_update_def Let_def split: option.splits)

lemma realTimeData_resume:
  "(\<And>cl s. realTimeData (fst (k cl s)) = realTimeData s) \<Longrightarrow>
   realTimeData (app (resume c st k \<sigma>)) = realTimeData (app \<sigma>)"
  by (simp add: resume_def Let_def)

lemma realTimeData_history:
  "realTimeData (fst (handleStockSelect_history stk r s)) = realTimeData s"
  by (simp add: handleStockSelect_history_def handleStockSelect_catch_def split: settled.splits)

lemma realTimeData_info:
  "realTimeData (fst (handleStockSelect_info stk b r s)) = realTimeData s"
  by (simp add: handleStockSelect_info_def handleStockSelect_catch_def split: settled.splits)

lemma realTimeData_predictions:
  "realTimeData (handleStockSelect_predictions rs s) = realTimeData s"
  by (simp add: handleStockSelect_predictions_def Let_def)

section \<open>The live buffer\<close>

lemma step_bounded:
  "length (realTimeData (app \<sigma>)) \<le> 100 \<Longrightarrow>
   length (realTimeData (app (sys_step e \<sigma>))) \<le> 100"
  by (cases e)
     (simp_all add: realTimeData_resume realTimeData_history realTimeData_info
        realTimeData_predictions realTimeData_stock_update length_push_tick
        handleStockSelect_begin_def Let_def connect_error_def split: option.splits)

lemma run_bounded:
  "length (realTimeData (app \<sigma>)) \<le> 100 \<Longrightarrow>
   length (realTimeData (app (run evs \<sigma>))) \<le> 100"
  by (induction evs arbitrary: \<sigma>) (simp_all add: run_Nil run_Cons step_bounded)

lemma run_ticks:
  "length (realTimeData (app \<sigma>)) \<le> 100 \<Longrightarrow> socket \<sigma> \<Longrightarrow>
   selectedStock (app \<sigma>) = Some stk \<Longrightarrow> \<forall>d\<in>set ds. t_symbol d = symbol stk \<Longrightarrow>
   realTimeData (app (run (map StockUpdate ds) \<sigma>))
     = drop (length (realTimeData (app \<sigma>) @ ds) - 100) (realTimeData (app \<sigma>) @ ds)"
proof (induction ds arbitrary: \<sigma>)
  case Nil
  then show ?case by (simp add: run_Nil)
next
  case (Cons d ds)
  let ?\<sigma> = "sys_step (StockUpdate d) \<sigma>"
  let ?b = "realTimeData (app \<sigma>) @ [d]"
  have 0: "length (realTimeData (app ?\<sigma>)) \<le> 100"
    using Cons.prems(1) by (rule step_bounded)
  have 1: "socket ?\<sigma>" using Cons.prems by simp
  have 2: "selectedStock (app ?\<sigma>) = Some stk"
    using Cons.prems by (simp add: selectedStock_stock_update)
  have 3: "realTimeData (app ?\<sigma>) = drop (length ?b - 100) ?b"
    using Cons.prems by (simp add: realTimeData_stock_update push_tick_drop del: drop_append)
  have "realTimeData (app (run (map StockUpdate (d # ds)) \<sigma>))
          = drop (length (drop (length ?b - 100) ?b @ ds) - 100) (drop (length ?b - 100) ?b @ ds)"
    using Cons.IH [OF 0 1 2] Cons.prems(4) by (simp only: list.map run_Cons 3 list.set) simp
  also have "\<dots> = drop (length (?b @ ds) - 100) (?b @ ds)"
    by (rule keep_last_append)
  finally show ?case by simp
qed

text \<open>
  Claim C2. Whatever events the application has processed since it started, the live
  buffer \<^verbatim>\<open>realTimeData\<close> holds at most 100 ticks; and when more than 100 ticks for the
  selected stock arrive on a freshly reset buffer, the buffer is exactly the last 100 of
  them, in arrival order.
\<close>

theorem live_buffer_keeps_last_100:
  "length (realTimeData (app (run evs sys_init))) \<le> 100 \<and>
   (socket \<sigma> \<and> selectedStock (app \<sigma>) = Some stk \<and> realTimeData (app \<sigma>) = [] \<and>
    (\<forall>d\<in>set ds. t_symbol d = symbol stk) \<and> 100 < length ds \<longrightarrow>
      realTimeData (app (run (map StockUpdate ds) \<sigma>)) = drop (length ds - 100) ds)"
proof
  show "length (realTimeData (app (run evs sys_init))) \<le> 100"
    by (rule run_bounded) (simp add: sys_init_def app_init_def)
next
  show "socket \<sigma> \<and> selectedStock (app \<sigma>) = Some stk \<and> realTimeData (app \<sigma>) = [] \<and>
    (\<forall>d\<in>set ds. t_symbol d = symbol stk) \<and> 100 < length ds \<longrightarrow>
      realTimeData (app (run (map StockUpdate ds) \<sigma>)) = drop (length ds - 100) ds"
    using run_ticks [of \<sigma> stk ds] by simp
qed

text \<open>150 ticks for the selected stock: the buffer holds ticks 50 to 149 (the 51st to the 150th).\<close>

theorem live_buffer_keeps_last_100_witness:
  "realTimeData (app (run (map StockUpdate (map aapl_tick [0..<150]))
      (run [Connect, Select aapl] (sys_init :: (nat, unit) sys))))
     = map aapl_tick [50..<150]"
proof -
  let ?s = "run [Connect, Select aapl] (sys_init :: (nat, unit) sys)"
  let ?ds = "map aapl_tick [0..<150]"
  have h: "socket ?s \<and> selectedStock (app ?s) = Some aapl \<and> realTimeData (app ?s) = [] \<and>
      (\<forall>d\<in>set ?ds. t_symbol d = symbol aapl) \<and> 100 < length ?ds"
    by (simp add: run_def sys_init_def app_init_def handleStockSelect_begin_def Let_def
          aapl_tick_def aapl_def)
  have "realTimeData (app (run (map StockUpdate ?ds) ?s)) = drop (length ?ds - 100) ?ds"
    using live_buffer_keeps_last_100 [of "[]" ?s aapl ?ds] h by blast
  also have "\<dots> = map aapl_tick [50..<150]" by (simp add: drop_map)
  finally show ?thesis .
qed

section \<open>Prediction maps\<close>







lemma map_of_assign: "k \<notin> fst ` set src \<Longrightarrow> map_of (assign t src) k = map_of t k"
  by (induction src arbitrary: t) (auto simp: assign_def update_conv')


lemma distinct_assign: "distinct (map fst t) \<Longrightarrow> distinct (map fst (assign t src))"
  by (induction src arbitrary: t) (auto simp: assign_def distinct_update)












section \<open>Selections and stale results\<close>

lemma selectedStock_resume:
  "(\<And>cl s. selectedStock (fst (k cl s)) = selectedStock s) \<Longrightarrow>
   selectedStock (app (resume c st k \<sigma>)) = selectedStock (app \<sigma>)"
  by (simp add: resume_def Let_def)

lemma selectedStock_history:
  "selectedStock (fst (handleStockSelect_history stk r s)) = selectedStock s"
  by (simp add: handleStockSelect_history_def handleStockSelect_catch_def split: settled.splits)

lemma selectedStock_info:
  "selectedStock (fst (handleStockSelect_info stk b r s)) = selectedStock s"
  by (simp add: handleStockSelect_info_def handleStockSelect_catch_def split: settled.splits)

lemma selectedStock_predictions:
  "selectedStock (handleStockSelect_predictions rs s) = selectedStock s"
  by (simp add: handleStockSelect_predictions_def Let_def)

lemma set_push_tick: "set (push_tick d xs) \<subseteq> insert d (set xs)"
  using set_drop_subset [of "length (xs @ [d]) - 100" "xs @ [d]"]
  by (simp add: push_tick_drop del: drop_append)

lemma buffer_matches_iff:
  "buffer_matches s \<longleftrightarrow>
     (\<forall>t\<in>set (realTimeData s). \<exists>sel. selectedStock s = Some sel \<and> t_symbol t = symbol sel)"
  by (cases "selectedStock s") (simp_all add: buffer_matches_def list_all_iff)

lemma stock_update_matches: "buffer_matches s \<Longrightarrow> buffer_matches (stock_update d s)"
  using set_push_tick [of d "realTimeData s"]
  by (auto simp: buffer_matches_iff realTimeData_stock_update selectedStock_stock_update
      split: option.splits)

lemma step_matches:
  assumes m: "buffer_matches (app \<sigma>)"
  shows "buffer_matches (app (sys_step e \<sigma>))"
proof (cases e)
  case (Select stk)
  then show ?thesis by (simp add: buffer_matches_iff handleStockSelect_begin_def Let_def)
next
  case (StockUpdate d)
  with m show ?thesis by (simp add: stock_update_matches)
qed (use m in \<open>simp_all add: buffer_matches_iff realTimeData_resume realTimeData_history realTimeData_info
       realTimeData_predictions selectedStock_resume selectedStock_history selectedStock_info
       selectedStock_predictions connect_error_def\<close>)

lemma run_matches: "buffer_matches (app \<sigma>) \<Longrightarrow> buffer_matches (app (run evs \<sigma>))"
  by (induction evs arbitrary: \<sigma>) (simp_all add: run_Nil run_Cons step_matches)

text \<open>
  Claim C1, as amended. The code has no selection epoch: a tick is accepted or dropped by
  its symbol alone. In every state the application can reach, every tick in the live
  buffer carries the symbol of the stock that is selected now, so a tick for another
  symbol is never in the buffer of the current selection. Nothing is claimed for the
  results of an earlier selection's requests.
\<close>

theorem buffered_ticks_match_selection:
  "\<forall>t\<in>set (realTimeData (app (run evs sys_init))).
     \<exists>sel. selectedStock (app (run evs sys_init)) = Some sel \<and> t_symbol t = symbol sel"
proof -
  have "buffer_matches (app (run evs (sys_init :: ('a, 'b) sys)))"
    by (rule run_matches) (simp add: buffer_matches_iff sys_init_def app_init_def)
  then show ?thesis by (simp add: buffer_matches_iff)
qed

text \<open>
  Claim C8, as amended. A tick whose symbol differs from the selected stock's symbol, or
  that arrives while no stock is selected, is discarded silently: the whole state is left
  as it was (nothing is appended, no error is set).
\<close>

theorem foreign_tick_discarded:
  "selectedStock (app \<sigma>) = None \<or> (\<exists>sel. selectedStock (app \<sigma>) = Some sel \<and> t_symbol d \<noteq> symbol sel)
   \<Longrightarrow> sys_step (StockUpdate d) \<sigma> = \<sigma>"
  by (auto simp: stock_update_def)

lemmas trace_simps = run_def sys_init_def app_init_def resume_def Let_def
  handleStockSelect_begin_def handleStockSelect_history_def handleStockSelect_info_def
  handleStockSelect_predictions_def handleStockSelect_catch_def predictionsByModel_def
  models_def usable_def predict_ok_def predict_failed_def stock_update_def push_tick_def
  js_slice_def aapl_def msft_def aapl_tick_def sent_by_def

text \<open>
  Claim C1 as stated fails. AAPL is selected, then MSFT while the AAPL history request
  is outstanding. The first activation goes on when its requests settle: the AAPL history
  and the AAPL forecast end up in the state whose selected stock is MSFT, whose own
  activation is still waiting for its history.
\<close>

theorem stale_results_are_merged:
  "selectedStock (app (run stale_trace sys_init)) = Some msft \<and>
   map c_stage (calls (run stale_trace sys_init)) = [Finished, AwaitHistory] \<and>
   sent_by 1 (run stale_trace sys_init) = [GetStockHistory ''MSFT''] \<and>
   PredictStock ''AAPL'' ''arima'' 7 \<in> set (sent_by 0 (run stale_trace sys_init)) \<and>
   stockData (app (run stale_trace sys_init)) = Some year \<and>
   predictions (app (run stale_trace sys_init)) = [(''arima'', week)]"
  by (simp add: stale_trace_def trace_simps)

text \<open>
  Claim C8 as stated fails on its generation clause. AAPL is selected and tracked, then
  selected again. The second activation has only asked for the history, so the AAPL tick
  that arrives answers the subscription of the first one; the listener appends it to the
  buffer that the second selection has just reset.
\<close>

theorem stale_tick_is_appended:
  "map c_stage (calls (run reselect_trace sys_init)) = [AwaitPredictions, AwaitHistory] \<and>
   sent_by 1 (run reselect_trace sys_init) = [GetStockHistory ''AAPL''] \<and>
   TrackStock ''AAPL'' \<in> set (sent_by 0 (run reselect_trace sys_init)) \<and>
   realTimeData (app (run (butlast reselect_trace) sys_init)) = [] \<and>
   realTimeData (app (run reselect_trace sys_init)) = [aapl_tick 7] \<and>
   error (app (run reselect_trace sys_init)) = None"
  by (simp add: reselect_trace_def trace_simps)

text \<open>An AAPL tick that arrives after MSFT was selected is dropped; the MSFT tick is kept.\<close>

theorem buffered_ticks_match_selection_witness:
  "realTimeData (app (run [Connect, Select aapl, StockUpdate (aapl_tick 1), Select msft,
       StockUpdate (aapl_tick 2), StockUpdate ((aapl_tick 3)\<lparr>t_symbol := ''MSFT''\<rparr>)]
       (sys_init :: (nat, unit) sys)))
     = [(aapl_tick 3)\<lparr>t_symbol := ''MSFT''\<rparr>] \<and>
   (\<exists>sel. selectedStock (app (run [Connect, Select aapl, StockUpdate (aapl_tick 1), Select msft,
       StockUpdate (aapl_tick 2), StockUpdate ((aapl_tick 3)\<lparr>t_symbol := ''MSFT''\<rparr>)]
       (sys_init :: (nat, unit) sys))) = Some sel \<and> ''MSFT'' = symbol sel)"
proof -
  let ?tr = "[Connect, Select aapl, StockUpdate (aapl_tick 1), Select msft,
       StockUpdate (aapl_tick 2), StockUpdate ((aapl_tick 3)\<lparr>t_symbol := ''MSFT''\<rparr>)]"
  let ?\<sigma> = "run ?tr (sys_init :: (nat, unit) sys)"
  have b: "realTimeData (app ?\<sigma>) = [(aapl_tick 3)\<lparr>t_symbol := ''MSFT''\<rparr>]"
    by (simp add: trace_simps)
  then have "(aapl_tick 3)\<lparr>t_symbol := ''MSFT''\<rparr> \<in> set (realTimeData (app ?\<sigma>))"
    by (simp only: list.set insertI1)
  then have "\<exists>sel. selectedStock (app ?\<sigma>) = Some sel
      \<and> t_symbol ((aapl_tick 3)\<lparr>t_symbol := ''MSFT''\<rparr>) = symbol sel"
    using buffered_ticks_match_selection [of ?tr] by blast
  with b show ?thesis by simp
qed

text \<open>An AAPL tick while MSFT is selected.\<close>

theorem foreign_tick_discarded_witness:
  "sys_step (StockUpdate (aapl_tick 1)) (run [Connect, Select msft] (sys_init :: (nat, unit) sys))
     = run [Connect, Select msft] sys_init"
proof -
  let ?\<sigma> = "run [Connect, Select msft] (sys_init :: (nat, unit) sys)"
  have "\<exists>sel. selectedStock (app ?\<sigma>) = Some sel \<and> t_symbol (aapl_tick 1 :: nat tick) \<noteq> symbol sel"
    by (simp add: trace_simps)
  then show ?thesis using foreign_tick_discarded [of ?\<sigma> "aapl_tick 1"] by blast
qed

lemma resume_finished:
  assumes "c < length (calls \<sigma>)" and "c_stage (calls \<sigma> ! c) = Finished" and "st \<noteq> Finished"
  shows "c < length (calls (resume c' st k \<sigma>)) \<and>
         c_stage (calls (resume c' st k \<sigma>) ! c) = Finished \<and>
         sent_by c (resume c' st k \<sigma>) = sent_by c \<sigma>"
proof (cases "c' = c")
  case True
  with assms show ?thesis by (simp add: resume_def)
next
  case False
  with assms show ?thesis
    by (simp add: resume_def Let_def sent_by_def filter_empty_conv)
qed

lemma sent_by_update [simp]:
  "sent_by c (\<sigma>\<lparr>app := a\<rparr>) = sent_by c \<sigma>" "sent_by c (\<sigma>\<lparr>socket := b\<rparr>) = sent_by c \<sigma>"
  by (simp_all add: sent_by_def)

lemma step_finished:
  assumes "c < length (calls \<sigma>)" and "c_stage (calls \<sigma> ! c) = Finished"
  shows "c < length (calls (sys_step e \<sigma>)) \<and>
         c_stage (calls (sys_step e \<sigma>) ! c) = Finished \<and>
         sent_by c (sys_step e \<sigma>) = sent_by c \<sigma>"
proof (cases e)
  case (Select stk)
  with assms show ?thesis
    by (simp add: Let_def nth_append sent_by_def handleStockSelect_begin_def)
qed (use assms in \<open>simp_all add: resume_finished\<close>)

lemma run_finished:
  "c < length (calls \<sigma>) \<Longrightarrow> c_stage (calls \<sigma> ! c) = Finished \<Longrightarrow>
   sent_by c (run evs \<sigma>) = sent_by c \<sigma>"
proof (induction evs arbitrary: \<sigma>)
  case Nil
  then show ?case by (simp add: run_Nil)
next
  case (Cons e evs)
  from step_finished [OF Cons.prems, of e] Cons.IH [of "sys_step e \<sigma>"]
  show ?case by (simp add: run_Cons)
qed

lemma step_sent_bounded: "sent_bounded \<sigma> \<Longrightarrow> sent_bounded (sys_step e \<sigma>)"
  by (cases e) (auto simp: sent_bounded_def resume_def Let_def handleStockSelect_begin_def)

lemma run_sent_bounded: "sent_bounded \<sigma> \<Longrightarrow> sent_bounded (run evs \<sigma>)"
  by (induction evs arbitrary: \<sigma>) (simp_all add: run_Nil run_Cons step_sent_bounded)

lemma sent_by_fresh: "sent_bounded \<sigma> \<Longrightarrow> sent_by (length (calls \<sigma>)) \<sigma> = []"
  by (auto simp: sent_bounded_def sent_by_def filter_empty_conv)

lemma run_append: "run (xs @ ys) \<sigma> = run ys (run xs \<sigma>)"
  by (simp add: run_def)

lemma resume_waiting:
  assumes "awaiting_history c stk \<sigma>" and "c' = c \<longrightarrow> st \<noteq> AwaitHistory"
  shows "awaiting_history c stk (resume c' st k \<sigma>)"
proof (cases "c' = c")
  case True
  with assms show ?thesis by (simp add: resume_def awaiting_history_def)
next
  case False
  with assms show ?thesis
    by (simp add: resume_def Let_def awaiting_history_def sent_by_def)
qed

lemma step_waiting:
  assumes "awaiting_history c stk \<sigma>" and "\<forall>r. e \<noteq> HistoryDone c r"
  shows "awaiting_history c stk (sys_step e \<sigma>)"
proof (cases e)
  case (Select stk')
  with assms show ?thesis
    by (simp add: awaiting_history_def Let_def nth_append sent_by_def handleStockSelect_begin_def)
next
  case (HistoryDone c' r)
  with assms have "c' \<noteq> c" by auto
  with assms HistoryDone show ?thesis by (simp add: resume_waiting)
qed (use assms in \<open>simp_all add: resume_waiting\<close>, simp_all add: awaiting_history_def)

lemma run_waiting:
  "awaiting_history c stk \<sigma> \<Longrightarrow> \<forall>r. HistoryDone c r \<notin> set evs \<Longrightarrow>
   awaiting_history c stk (run evs \<sigma>)"
proof (induction evs arbitrary: \<sigma>)
  case Nil
  then show ?case by (simp add: run_Nil)
next
  case (Cons e evs)
  from Cons.prems have "\<forall>r. e \<noteq> HistoryDone c r" "\<forall>r. HistoryDone c r \<notin> set evs" by auto
  with Cons.prems(1) Cons.IH [of "sys_step e \<sigma>"] show ?case
    by (simp add: run_Cons step_waiting)
qed

lemma select_waiting:
  "sent_bounded \<sigma> \<Longrightarrow> awaiting_history (length (calls \<sigma>)) stk (sys_step (Select stk) \<sigma>)"
  using sent_by_fresh [of \<sigma>]
  by (simp add: awaiting_history_def Let_def handleStockSelect_begin_def sent_by_def)

lemma select_resets: "freshly_reset stk (app (sys_step (Select stk) \<sigma>))"
  by (simp add: freshly_reset_def Let_def handleStockSelect_begin_def)

lemma reject_waiting:
  assumes "awaiting_history c stk \<sigma>"
  shows "app (sys_step (HistoryDone c Rejected) \<sigma>) = handleStockSelect_catch (app \<sigma>)"
    and "c < length (calls (sys_step (HistoryDone c Rejected) \<sigma>))"
    and "c_stage (calls (sys_step (HistoryDone c Rejected) \<sigma>) ! c) = Finished"
    and "sent_by c (sys_step (HistoryDone c Rejected) \<sigma>) = [GetStockHistory (symbol stk)]"
  using assms
  by (simp_all add: awaiting_history_def resume_def Let_def handleStockSelect_history_def sent_by_def)

lemma quiet_step_reset:
  assumes "freshly_reset stk (app \<sigma>)"
    and "e = Connect \<or> e = ConnectError \<or> (\<exists>d. e = StockUpdate d \<and> t_symbol d \<noteq> symbol stk)"
  shows "freshly_reset stk (app (sys_step e \<sigma>))"
  using assms by (auto simp: freshly_reset_def connect_error_def stock_update_def)

lemma quiet_run_reset:
  "freshly_reset stk (app \<sigma>) \<Longrightarrow>
   \<forall>e\<in>set evs. e = Connect \<or> e = ConnectError \<or> (\<exists>d. e = StockUpdate d \<and> t_symbol d \<noteq> symbol stk) \<Longrightarrow>
   freshly_reset stk (app (run evs \<sigma>))"
proof (induction evs arbitrary: \<sigma>)
  case Nil
  then show ?case by (simp add: run_Nil)
next
  case (Cons e evs)
  from Cons.prems have "freshly_reset stk (app (sys_step e \<sigma>))"
    by (intro quiet_step_reset) simp_all
  with Cons.prems(2) Cons.IH [of "sys_step e \<sigma>"] show ?case
    by (simp add: run_Cons)
qed

text \<open>
  Claim C10, as amended. A selection is made after any events, other events follow, and
  then its history request, still outstanding, is rejected. The activation ends in its
  \<^verbatim>\<open>catch\<close> block: the error message is set and loading is off, and the rejection
  writes no other cell. Whatever happens afterwards, the history request stays the only
  request that activation has sent: no stock-info, tracking or forecast request. When the
  events in between are only connection events and ticks for other symbols, the selected
  stock is the one selected and the historical data, the stock info, the prediction map
  and the live buffer are in their reset state.
\<close>

theorem history_failure_aborts:
  assumes "\<forall>r. HistoryDone (length (calls (run evs0 sys_init))) r \<notin> set evs1"
  shows "let c = length (calls (run evs0 sys_init));
             \<sigma>1 = run (evs0 @ Select stk # evs1) sys_init;
             \<sigma>2 = run (evs0 @ Select stk # evs1 @ [HistoryDone c Rejected]) sys_init
         in error (app \<sigma>2) = Some ''Failed to fetch stock data. Please try again.'' \<and>
            loading (app \<sigma>2) = False \<and>
            selectedStock (app \<sigma>2) = selectedStock (app \<sigma>1) \<and>
            stockData (app \<sigma>2) = stockData (app \<sigma>1) \<and>
            stockInfo (app \<sigma>2) = stockInfo (app \<sigma>1) \<and>
            predictions (app \<sigma>2) = predictions (app \<sigma>1) \<and>
            realTimeData (app \<sigma>2) = realTimeData (app \<sigma>1) \<and>
            (\<forall>evs2. sent_by c (run evs2 \<sigma>2) = [GetStockHistory (symbol stk)]) \<and>
            ((\<forall>e\<in>set evs1. e = Connect \<or> e = ConnectError \<or>
                 (\<exists>d. e = StockUpdate d \<and> t_symbol d \<noteq> symbol stk)) \<longrightarrow>
               selectedStock (app \<sigma>2) = Some stk \<and> stockData (app \<sigma>2) = None \<and>
               stockInfo (app \<sigma>2) = None \<and> predictions (app \<sigma>2) = [] \<and>
               realTimeData (app \<sigma>2) = [])"
proof -
  let ?\<sigma>0 = "run evs0 (sys_init :: ('a, 'b) sys)"
  let ?c = "length (calls ?\<sigma>0)"
  let ?\<sigma>s = "sys_step (Select stk) ?\<sigma>0"
  let ?\<sigma>1 = "run evs1 ?\<sigma>s"
  let ?\<sigma>2 = "sys_step (HistoryDone ?c Rejected) ?\<sigma>1"
  have e1: "run (evs0 @ Select stk # evs1) sys_init = ?\<sigma>1"
    by (simp add: run_append run_Cons)
  have e2: "run (evs0 @ Select stk # evs1 @ [HistoryDone ?c Rejected]) sys_init = ?\<sigma>2"
    by (simp add: run_append run_Cons run_Nil)
  have b: "sent_bounded ?\<sigma>0"
    by (rule run_sent_bounded) (simp add: sent_bounded_def sys_init_def)
  have w: "awaiting_history ?c stk ?\<sigma>1"
    using select_waiting [OF b] assms by (rule run_waiting)
  note r = reject_waiting [OF w]
  have sent: "sent_by ?c (run evs2 ?\<sigma>2) = [GetStockHistory (symbol stk)]" for evs2
    using run_finished [OF r(2) r(3), of evs2] r(4) by simp
  have quiet: "freshly_reset stk (app ?\<sigma>1)"
    if "\<forall>e\<in>set evs1. e = Connect \<or> e = ConnectError \<or>
                 (\<exists>d. e = StockUpdate d \<and> t_symbol d \<noteq> symbol stk)"
    using select_resets that by (rule quiet_run_reset)
  have frame: "error (app ?\<sigma>2) = Some ''Failed to fetch stock data. Please try again.'' \<and>
            loading (app ?\<sigma>2) = False \<and>
            selectedStock (app ?\<sigma>2) = selectedStock (app ?\<sigma>1) \<and>
            stockData (app ?\<sigma>2) = stockData (app ?\<sigma>1) \<and>
            stockInfo (app ?\<sigma>2) = stockInfo (app ?\<sigma>1) \<and>
            predictions (app ?\<sigma>2) = predictions (app ?\<sigma>1) \<and>
            realTimeData (app ?\<sigma>2) = realTimeData (app ?\<sigma>1)"
    by (simp add: r(1) handleStockSelect_catch_def del: sys_step.simps)
  have reset: "(\<forall>e\<in>set evs1. e = Connect \<or> e = ConnectError \<or>
                 (\<exists>d. e = StockUpdate d \<and> t_symbol d \<noteq> symbol stk)) \<longrightarrow>
               selectedStock (app ?\<sigma>2) = Some stk \<and> stockData (app ?\<sigma>2) = None \<and>
               stockInfo (app ?\<sigma>2) = None \<and> predictions (app ?\<sigma>2) = [] \<and>
               realTimeData (app ?\<sigma>2) = []"
  proof
    assume "\<forall>e\<in>set evs1. e = Connect \<or> e = ConnectError \<or>
                 (\<exists>d. e = StockUpdate d \<and> t_symbol d \<noteq> symbol stk)"
    then have "freshly_reset stk (app ?\<sigma>1)" by (rule quiet)
    then show "selectedStock (app ?\<sigma>2) = Some stk \<and> stockData (app ?\<sigma>2) = None \<and>
               stockInfo (app ?\<sigma>2) = None \<and> predictions (app ?\<sigma>2) = [] \<and>
               realTimeData (app ?\<sigma>2) = []"
      by (simp add: r(1) handleStockSelect_catch_def freshly_reset_def del: sys_step.simps)
  qed
  show ?thesis
    unfolding Let_def e1 e2
    using frame sent reset by blast
qed

text \<open>
  Claim C10 as stated fails. AAPL is selected and tracked, then selected again twice. While
  the third activation waits for its history, the second one receives its history and
  stock info, an AAPL tick arrives and the forecasts of the first one settle. Then the
  history request of the third activation is rejected: the error is set, and none of the
  four cells is in its reset state.
\<close>

theorem interleaved_writes_survive_abort:
  "map c_stage (calls (run (butlast aborted_trace) sys_init))
     = [Finished, AwaitPredictions, AwaitHistory] \<and>
   map c_stage (calls (run aborted_trace sys_init)) = [Finished, AwaitPredictions, Finished] \<and>
   error (app (run aborted_trace sys_init)) = Some ''Failed to fetch stock data. Please try again.'' \<and>
   stockData (app (run aborted_trace sys_init)) = Some year \<and>
   stockInfo (app (run aborted_trace sys_init)) = Some () \<and>
   predictions (app (run aborted_trace sys_init)) = [(''arima'', week)] \<and>
   realTimeData (app (run aborted_trace sys_init)) = [aapl_tick 7]"
  by (simp add: aborted_trace_def trace_simps)

text \<open>
  AAPL is tracked, MSFT is selected, an AAPL tick arrives and the MSFT history request is
  rejected; later the AAPL forecasts settle.
\<close>

theorem history_failure_aborts_witness:
  "error (app (run (tracked_trace @ Select msft # [StockUpdate (aapl_tick 7)] @ [HistoryDone 1 Rejected])
      sys_init)) = Some ''Failed to fetch stock data. Please try again.'' \<and>
   stockData (app (run (tracked_trace @ Select msft # [StockUpdate (aapl_tick 7)] @ [HistoryDone 1 Rejected])
      sys_init)) = None \<and>
   realTimeData (app (run (tracked_trace @ Select msft # [StockUpdate (aapl_tick 7)] @ [HistoryDone 1 Rejected])
      sys_init)) = [] \<and>
   sent_by 1 (run [PredictionsDone 0 [predict_ok week, predict_failed, predict_failed]]
      (run (tracked_trace @ Select msft # [StockUpdate (aapl_tick 7)] @ [HistoryDone 1 Rejected])
        sys_init)) = [GetStockHistory ''MSFT'']"
proof -
  have c: "length (calls (run tracked_trace (sys_init :: (nat, unit) sys))) = 1"
    by (simp add: tracked_trace_def trace_simps)
  have h: "\<forall>r. HistoryDone (length (calls (run tracked_trace (sys_init :: (nat, unit) sys)))) r
             \<notin> set [StockUpdate (aapl_tick 7)]"
    by simp
  have q: "\<forall>e\<in>set [StockUpdate (aapl_tick 7) :: (nat, unit) event].
             e = Connect \<or> e = ConnectError \<or> (\<exists>d. e = StockUpdate d \<and> t_symbol d \<noteq> symbol msft)"
    by (simp add: aapl_tick_def msft_def)
  have m: "symbol msft = ''MSFT''" by (simp add: msft_def)
  from history_failure_aborts [OF h, of msft, unfolded Let_def c] q m show ?thesis
    by metis
qed

section \<open>Merging into and replacing the prediction map\<close>





section \<open>The assembled chart\<close>

lemma add_real_time_eq:
  "add_real_time rt (a, b) = (a @ map timestamp rt, b @ map price rt)"
  by (induction rt arbitrary: a b) (simp_all add: add_real_time_def)

lemma add_real_time_live:
  "(case rtData of None \<Rightarrow> fp | Some rt \<Rightarrow> if length rt > 0 then add_real_time rt fp else fp)
     = (fst fp @ map timestamp (live_ticks rtData), snd fp @ map price (live_ticks rtData))"
  by (cases fp) (simp add: live_ticks_def add_real_time_eq split: option.splits)

lemma labels_prepareChartData:
  "map_option labels (prepareChartData (Some h) rtData preds timeRange sp m)
     = Some (fst (filter_range timeRange (dates h) (close h)) @ map timestamp (live_ticks rtData))"
  by (simp add: prepareChartData_def Let_def add_real_time_live)

lemma prices_prepareChartData:
  "map_option (\<lambda>out. d_data (hd (datasets out))) (prepareChartData (Some h) rtData preds timeRange sp m)
     = Some (snd (filter_range timeRange (dates h) (close h)) @ map price (live_ticks rtData))"
  by (simp add: prepareChartData_def Let_def add_real_time_live)

lemma predictionDates_prepareChartData:
  "map_option predictionDates (prepareChartData (Some h) rtData preds timeRange sp m)
     = Some (case (case preds of None \<Rightarrow> None | Some p \<Rightarrow> map_of p m) of
               None \<Rightarrow> [] | Some pd \<Rightarrow> p_dates pd)"
  by (simp add: prepareChartData_def Let_def)

lemma prepareChartData_pure:
  "prepareChartData (Some h) rtData preds timeRange sp m =
     Some \<lparr>labels = fst (filter_range timeRange (dates h) (close h)) @ map timestamp (live_ticks rtData),
           datasets =
             \<lparr>label = HistoricalPrice,
              d_data = snd (filter_range timeRange (dates h) (close h)) @ map price (live_ticks rtData),
              xAxisID = None\<rparr>
             # (if sp then
                  (case (case preds of None \<Rightarrow> None | Some p \<Rightarrow> map_of p m) of
                     None \<Rightarrow> []
                   | Some predictionData \<Rightarrow> prediction_datasets m predictionData)
                else []),
           predictionDates =
             (case (case preds of None \<Rightarrow> None | Some p \<Rightarrow> map_of p m) of
                None \<Rightarrow> [] | Some pd \<Rightarrow> p_dates pd)\<rparr>"
  by (simp add: prepareChartData_def Let_def add_real_time_live)

text \<open>
  Claim C7. The ticks of the live buffer are appended, in arrival order, after the sliced
  historical points: the labels are the sliced dates followed by the timestamps, the
  prices of the first dataset are the sliced closes followed by the tick prices. The
  time range enters only through the slice.
\<close>

theorem live_ticks_appended:
  "map_option labels (prepareChartData (Some h) (Some rt) preds timeRange sp m)
     = Some (fst (filter_range timeRange (dates h) (close h)) @ map timestamp rt) \<and>
   map_option (\<lambda>out. d_data (hd (datasets out))) (prepareChartData (Some h) (Some rt) preds timeRange sp m)
     = Some (snd (filter_range timeRange (dates h) (close h)) @ map price rt)"
  by (simp add: labels_prepareChartData prices_prepareChartData live_ticks_def)

lemma js_slice_suffix: "\<exists>n. js_slice xs k = drop n xs"
  by (auto simp: js_slice_def Let_def)

lemma filter_range_suffix: "\<exists>n. fst (filter_range timeRange ds ps) = drop n ds"
proof -
  have "drop 0 ds = ds" by simp
  then show ?thesis
    using js_slice_suffix [of ds "int (length ds) - 30"] js_slice_suffix [of ds "int (length ds) - 90"]
      js_slice_suffix [of ds "int (length ds) - 180"]
    by (auto simp: filter_range_def Let_def intro: exI [of _ 0])
qed

lemma short_series:
  "length ds < 30 \<Longrightarrow> fst (filter_range ''1m'' ds ps) = drop (2 * length ds - 30) ds"
  by (auto simp: filter_range_def js_slice_def Let_def max_def nat_diff_distrib' intro!: arg_cong2 [of _ _ _ _ drop])

lemma year_scenario:
  "map_option labels (prepareChartData (Some year) None None ''1m'' True ''arima'') = Some [223 ..< 253] \<and>
   map_option labels (prepareChartData (Some year) None None ''1y'' True ''arima'') = Some [1 ..< 253]"
  by (simp add: labels_prepareChartData live_ticks_def filter_range_def js_slice_def year_def Let_def)

text \<open>
  Claim C4 fails on the code for a series shorter than the window and longer than half of
  it: with 20 entries and the range \<^verbatim>\<open>'1m'\<close> the cutoff is \<open>-10\<close>, which
  \<^verbatim>\<open>slice\<close> counts from the end, and only the last 10 entries are kept instead of all 20.
\<close>

theorem short_series_loses_entries:
  "map_option labels (prepareChartData (Some month20) None None ''1m'' True ''arima'')
     = Some [11 ..< 21] \<and>
   dates month20 = [1 ..< 21]"
  by (simp add: labels_prepareChartData live_ticks_def filter_range_def js_slice_def month20_def Let_def)

text \<open>
  Claim C5 as stated fails: the assembler concatenates and never orders. With historical
  dates 1, 2, a tick delivered twice at time 5 and a forecast for the dates 3, 4 (after
  the last historical date), the primary dates are 1, 2, 5, 5 and the first forecast date
  does not exceed the last primary date.
\<close>

theorem unordered_dates_pass_through:
  "map_option labels (prepareChartData (Some two_days) (Some [aapl_tick 5, aapl_tick 5])
      (Some [(''arima'', late_forecast)]) ''1y'' True ''arima'') = Some [1, 2, 5, 5] \<and>
   map_option predictionDates (prepareChartData (Some two_days) (Some [aapl_tick 5, aapl_tick 5])
      (Some [(''arima'', late_forecast)]) ''1y'' True ''arima'') = Some [3, 4] \<and>
   \<not> sorted_wrt (<) [1, 2, 5, 5 :: nat] \<and>
   \<not> last [1, 2, 5, 5 :: nat] < 3"
  by (simp add: labels_prepareChartData predictionDates_prepareChartData live_ticks_def
      filter_range_def two_days_def late_forecast_def aapl_tick_def)

text \<open>
  Claim C5, as amended. When the historical dates are strictly increasing, the live
  timestamps are strictly increasing and every live timestamp is later than every
  historical date, the primary dates are strictly increasing; and every forecast date that
  is later than all historical dates and all live timestamps exceeds every primary date,
  so the last one too.
\<close>

theorem ordered_inputs_give_ordered_dates:
  fixes h :: "('v :: linorder) historical"
  assumes "sorted_wrt (<) (dates h)"
    and "sorted_wrt (<) (map timestamp (live_ticks rtData))"
    and "\<forall>a\<in>set (dates h). \<forall>t\<in>set (live_ticks rtData). a < timestamp t"
    and "prepareChartData (Some h) rtData preds timeRange sp m = Some out"
  shows "sorted_wrt (<) (labels out) \<and>
         (\<forall>f\<in>set (predictionDates out).
            (\<forall>a\<in>set (dates h). a < f) \<and> (\<forall>t\<in>set (live_ticks rtData). timestamp t < f)
              \<longrightarrow> (\<forall>p\<in>set (labels out). p < f))"
proof -
  obtain n where n: "fst (filter_range timeRange (dates h) (close h)) = drop n (dates h)"
    using filter_range_suffix by blast
  have l: "labels out = drop n (dates h) @ map timestamp (live_ticks rtData)"
    using labels_prepareChartData [of h rtData preds timeRange sp m] assms(4) n by simp
  have "sorted_wrt (<) (drop n (dates h))" using assms(1) by (rule sorted_wrt_drop)
  moreover have "\<forall>a\<in>set (drop n (dates h)). \<forall>t\<in>set (live_ticks rtData). a < timestamp t"
    using assms(3) by (meson in_set_dropD)
  ultimately have "sorted_wrt (<) (labels out)"
    using assms(2) by (simp add: l sorted_wrt_append)
  moreover have "set (labels out) \<subseteq> set (dates h) \<union> timestamp ` set (live_ticks rtData)"
    using set_drop_subset [of n "dates h"] by (auto simp: l)
  ultimately show ?thesis by blast
qed

text \<open>Two historical days, ticks at 3 and 5, a forecast for the days 6 and 7.\<close>

theorem ordered_inputs_give_ordered_dates_witness:
  "sorted_wrt (<) (dates two_days) \<and>
   prepareChartData (Some two_days) (Some [aapl_tick 3, aapl_tick 5])
     (Some [(''arima'', late_forecast\<lparr>p_dates := [6, 7]\<rparr>)]) ''1m'' True ''arima''
     = Some \<lparr>labels = [1, 2, 3, 5],
             datasets = \<lparr>label = HistoricalPrice, d_data = [100, 101, 0, 0], xAxisID = None\<rparr>
               # prediction_datasets ''arima'' (late_forecast\<lparr>p_dates := [6, 7]\<rparr>),
             predictionDates = [6, 7]\<rparr> \<and>
   sorted_wrt (<) [1, 2, 3, 5 :: nat] \<and> last [1, 2, 3, 5 :: nat] < 6"
proof -
  let ?rt = "Some [aapl_tick 3, aapl_tick 5]"
  let ?out = "\<lparr>labels = [1, 2, 3, 5],
             datasets = \<lparr>label = HistoricalPrice, d_data = [100, 101, 0, 0], xAxisID = None\<rparr>
               # prediction_datasets ''arima'' (late_forecast\<lparr>p_dates := [6, 7]\<rparr>),
             predictionDates = [6, 7 :: nat]\<rparr>"
  have 1: "sorted_wrt (<) (dates two_days)" by (simp add: two_days_def)
  have 2: "sorted_wrt (<) (map timestamp (live_ticks ?rt))"
    by (simp add: live_ticks_def aapl_tick_def)
  have 3: "\<forall>a\<in>set (dates two_days). \<forall>t\<in>set (live_ticks ?rt). a < timestamp t"
    by (simp add: live_ticks_def aapl_tick_def two_days_def)
  have 4: "prepareChartData (Some two_days) ?rt
     (Some [(''arima'', late_forecast\<lparr>p_dates := [6, 7]\<rparr>)]) ''1m'' True ''arima'' = Some ?out"
    by (simp add: prepareChartData_pure live_ticks_def aapl_tick_def two_days_def
        filter_range_def js_slice_def)
  have 5: "(\<forall>a\<in>set (dates two_days). a < 6) \<and> (\<forall>t\<in>set (live_ticks ?rt). timestamp t < 6)"
    by (simp add: live_ticks_def aapl_tick_def two_days_def)
  have "sorted_wrt (<) (labels ?out) \<and> (\<forall>p\<in>set (labels ?out). p < 6)"
    using ordered_inputs_give_ordered_dates [OF 1 2 3 4] 5 by simp
  with 1 4 show ?thesis by simp
qed

section \<open>The assembler on the store\<close>

lemma alloc_simps [simp]: "fst (alloc xs st) = length st" "snd (alloc xs st) = st @ [xs]"
  by (simp_all add: alloc_def)

lemma length_push [simp]: "length (push r v st) = length st"
  by (simp add: push_def)

lemma nth_push: "r < length st \<Longrightarrow> push r v st ! q = (if q = r then st ! r @ [v] else st ! q)"
  by (simp add: push_def)

lemma add_real_time_st_eq:
  assumes "fd < length st" and "fp < length st" and "fd \<noteq> fp"
  shows "length (add_real_time_st rt fd fp st) = length st \<and>
         add_real_time_st rt fd fp st ! fd = st ! fd @ map timestamp rt \<and>
         add_real_time_st rt fd fp st ! fp = st ! fp @ map price rt \<and>
         (\<forall>q. q \<noteq> fd \<and> q \<noteq> fp \<longrightarrow> add_real_time_st rt fd fp st ! q = st ! q)"
  using assms
proof (induction rt arbitrary: st)
  case Nil
  then show ?case by (simp add: add_real_time_st_def)
next
  case (Cons d rt)
  let ?st = "push fp (price d) (push fd (timestamp d) st)"
  have s: "add_real_time_st (d # rt) fd fp st = add_real_time_st rt fd fp ?st"
    by (simp add: add_real_time_st_def)
  have "fd < length ?st" "fp < length ?st" using Cons.prems by simp_all
  from Cons.IH [OF this Cons.prems(3)] Cons.prems show ?case
    unfolding s by (simp add: nth_push)
qed

lemma slice_both_eq:
  "fd < length st \<Longrightarrow> fp < length st \<Longrightarrow>
   slice_both k fd fp st =
     ((length st, Suc (length st)), st @ [js_slice (st ! fd) k, js_slice (st ! fp) k])"
  by (simp add: slice_both_def Let_def nth_append)

lemma filter_range_st_eq:
  assumes "fd < length st" and "fp < length st" and "fd \<noteq> fp" and "n \<le> fd" and "n \<le> fp"
  shows "\<exists>fd' fp' ext.
           filter_range_st timeRange fd fp st = ((fd', fp'), st @ ext) \<and>
           fd' < length (st @ ext) \<and> fp' < length (st @ ext) \<and> fd' \<noteq> fp' \<and>
           n \<le> fd' \<and> n \<le> fp' \<and>
           ((st @ ext) ! fd', (st @ ext) ! fp') = filter_range timeRange (st ! fd) (st ! fp)"
proof -
  have k: "\<And>k. \<exists>fd' fp' ext.
           slice_both k fd fp st = ((fd', fp'), st @ ext) \<and>
           fd' < length (st @ ext) \<and> fp' < length (st @ ext) \<and> fd' \<noteq> fp' \<and>
           n \<le> fd' \<and> n \<le> fp' \<and>
           ((st @ ext) ! fd', (st @ ext) ! fp') = (js_slice (st ! fd) k, js_slice (st ! fp) k)"
    using assms by (simp add: slice_both_eq nth_append)
  have z: "\<exists>fd' fp' ext.
           ((fd, fp), st) = ((fd', fp'), st @ ext) \<and>
           fd' < length (st @ ext) \<and> fp' < length (st @ ext) \<and> fd' \<noteq> fp' \<and>
           n \<le> fd' \<and> n \<le> fp' \<and>
           ((st @ ext) ! fd', (st @ ext) ! fp') = (st ! fd, st ! fp)"
    using assms by (intro exI [of _ fd] exI [of _ fp] exI [of _ "[]"]) simp
  show ?thesis
    using k z by (simp add: filter_range_st_def filter_range_def Let_def)
qed

lemma map_of_read_predictions:
  "map_of (read_predictions st p) m = map_option (read_forecast st) (map_of p m)"
  by (induction p) (simp_all add: read_predictions_def)

lemma chosen_in:
  "list_all (\<lambda>kf. forecast_in st (snd kf)) p \<Longrightarrow> map_of p m = Some f \<Longrightarrow> forecast_in st f"
  by (force simp: list_all_iff dest!: map_of_SomeD)

lemma read_forecast_frame:
  "forecast_in st f \<Longrightarrow> \<forall>r<length st. st' ! r = st ! r \<Longrightarrow> read_forecast st' f = read_forecast st f"
  by (simp add: read_forecast_def forecast_in_def)

lemma prepareChartData_st_refines:
  assumes hd: "dates_ref h < length st" and hc: "close_ref h < length st"
    and hp: "case preds of None \<Rightarrow> True | Some p \<Rightarrow> list_all (\<lambda>kf. forecast_in st (snd kf)) p"
  shows "\<exists>out st'.
           prepareChartData_st (Some h) rtData preds timeRange sp m st = (Some out, st') \<and>
           Some (read_chart st' out) =
             prepareChartData (Some (read_historical st h)) rtData
               (map_option (read_predictions st) preds) timeRange sp m \<and>
           length st \<le> length st' \<and> (\<forall>r<length st. st' ! r = st ! r)"
proof -
  let ?n = "length st"
  let ?st2 = "st @ [st ! dates_ref h, st ! close_ref h]"
  obtain fd fp ext where
    c: "filter_range_st timeRange ?n (Suc ?n) ?st2 = ((fd, fp), ?st2 @ ext)"
    and b: "fd < length (?st2 @ ext)" "fp < length (?st2 @ ext)" "fd \<noteq> fp" "?n \<le> fd" "?n \<le> fp"
    and v: "((?st2 @ ext) ! fd, (?st2 @ ext) ! fp)
              = filter_range timeRange (st ! dates_ref h) (st ! close_ref h)"
    using filter_range_st_eq [of ?n ?st2 "Suc ?n" ?n timeRange]
    by (auto simp: nth_append)
  let ?st3 = "?st2 @ ext"
  define st4 where "st4 = (case rtData of None \<Rightarrow> ?st3
     | Some rt \<Rightarrow> if length rt > 0 then add_real_time_st rt fd fp ?st3 else ?st3)"
  have st4: "length st4 = length ?st3"
    "st4 ! fd = ?st3 ! fd @ map timestamp (live_ticks rtData)"
    "st4 ! fp = ?st3 ! fp @ map price (live_ticks rtData)"
    "\<forall>q. q \<noteq> fd \<and> q \<noteq> fp \<longrightarrow> st4 ! q = ?st3 ! q"
    using add_real_time_st_eq [OF b(1,2,3)]
    by (auto simp: st4_def live_ticks_def split: option.splits)
  have old4: "\<forall>r<?n. st4 ! r = st ! r"
    using st4(4) b(4,5) by (auto simp: nth_append)
  define chosen where "chosen = (case preds of None \<Rightarrow> None | Some p \<Rightarrow> map_of p m)"
  have ch: "chosen = Some f \<Longrightarrow> forecast_in st f" for f
    using hp by (auto simp: chosen_def split: option.splits dest: chosen_in)
  define e where "e = (case chosen of None \<Rightarrow> alloc [] st4 | Some pd \<Rightarrow> (p_dates_ref pd, st4))"
  let ?out = "\<lparr>labels_ref = fd,
       datasets_r = \<lparr>label_r = HistoricalPrice, d_data_ref = fp, xAxisID_r = None\<rparr>
         # (if sp then (case chosen of None \<Rightarrow> []
                        | Some predictionData \<Rightarrow> prediction_datasets_st m predictionData)
            else []),
       predictionDates_ref = fst e\<rparr>"
  have c': "filter_range_st timeRange ?n (length (st @ [st ! dates_ref h]))
       ((st @ [st ! dates_ref h]) @ [(st @ [st ! dates_ref h]) ! close_ref h])
      = ((fd, fp), ?st3)"
    using c hc by (simp add: nth_append)
  have run: "prepareChartData_st (Some h) rtData preds timeRange sp m st = (Some ?out, snd e)"
    unfolding prepareChartData_st_def Let_def alloc_simps c' fst_conv snd_conv option.case
      st4_def chosen_def e_def
    by simp
  have len5: "length st4 \<le> length (snd e)"
    by (simp add: e_def split: option.splits)
  have old5: "\<forall>r<length st4. snd e ! r = st4 ! r"
    by (simp add: e_def nth_append split: option.splits)
  have len: "?n \<le> length (snd e)" using len5 st4(1) by simp
  have old: "\<forall>r<?n. snd e ! r = st ! r" using old5 old4 st4(1) by simp
  have lab: "snd e ! fd = fst (filter_range timeRange (st ! dates_ref h) (st ! close_ref h))
      @ map timestamp (live_ticks rtData)"
    using old5 b(1) st4(1,2) v by (simp add: prod_eq_iff)
  have pri: "snd e ! fp = snd (filter_range timeRange (st ! dates_ref h) (st ! close_ref h))
      @ map price (live_ticks rtData)"
    using old5 b(2) st4(1,3) v by (simp add: prod_eq_iff)
  have pd: "snd e ! fst e = (case chosen of None \<Rightarrow> [] | Some f \<Rightarrow> p_dates (read_forecast st f))"
  proof (cases chosen)
    case None
    then show ?thesis by (simp add: e_def)
  next
    case (Some f)
    with ch [of f] old4 show ?thesis by (simp add: e_def read_forecast_def forecast_in_def)
  qed
  have ds: "map (read_dataset (snd e))
       (if sp then (case chosen of None \<Rightarrow> [] | Some f \<Rightarrow> prediction_datasets_st m f) else [])
     = (if sp then (case chosen of None \<Rightarrow> [] | Some f \<Rightarrow> prediction_datasets m (read_forecast st f)) else [])"
  proof (cases chosen)
    case None
    then show ?thesis by simp
  next
    case (Some f)
    with ch [of f] old show ?thesis
      by (simp add: prediction_datasets_st_def prediction_datasets_def read_dataset_def
          read_forecast_def forecast_in_def)
  qed
  have ch': "(case map_option (read_predictions st) preds of None \<Rightarrow> None | Some p \<Rightarrow> map_of p m)
     = map_option (read_forecast st) chosen"
    by (simp add: chosen_def map_of_read_predictions split: option.splits)
  have "Some (read_chart (snd e) ?out) =
          prepareChartData (Some (read_historical st h)) rtData
            (map_option (read_predictions st) preds) timeRange sp m"
    unfolding prepareChartData_pure ch'
    by (simp add: read_chart_def lab pri pd ds read_dataset_def read_historical_def
        split: option.splits)
  with run len old show ?thesis by blast
qed

lemma prepareChartData_st_sound:
  assumes "inputs_in st historicalData preds"
  shows "map_option (read_chart (snd (prepareChartData_st historicalData rtData preds timeRange sp m st)))
           (fst (prepareChartData_st historicalData rtData preds timeRange sp m st))
         = prepareChartData (map_option (read_historical st) historicalData) rtData
             (map_option (read_predictions st) preds) timeRange sp m \<and>
         length st \<le> length (snd (prepareChartData_st historicalData rtData preds timeRange sp m st)) \<and>
         (\<forall>r<length st.
            snd (prepareChartData_st historicalData rtData preds timeRange sp m st) ! r = st ! r)"
proof (cases historicalData)
  case None
  then show ?thesis by (simp add: prepareChartData_st_def prepareChartData_def)
next
  case (Some h)
  with assms have "dates_ref h < length st" "close_ref h < length st"
    "case preds of None \<Rightarrow> True | Some p \<Rightarrow> list_all (\<lambda>kf. forecast_in st (snd kf)) p"
    by (simp_all add: inputs_in_def)
  from prepareChartData_st_refines [OF this, of rtData timeRange sp m]
  obtain out st' where
    "prepareChartData_st (Some h) rtData preds timeRange sp m st = (Some out, st')"
    "Some (read_chart st' out) =
       prepareChartData (Some (read_historical st h)) rtData
         (map_option (read_predictions st) preds) timeRange sp m"
    "length st \<le> length st'" "\<forall>r<length st. st' ! r = st ! r"
    by blast
  with Some show ?thesis by simp
qed

text \<open>
  Claim C6 as stated fails: the output also depends on the \<^verbatim>\<open>showPredictions\<close> toggle
  of the component. Two calls with the same historical data, ticks, prediction map, time
  range and selected model, one with the toggle on and one with it off, return different
  datasets.
\<close>

theorem toggle_changes_output:
  "prepareChartData (Some two_days) (Some []) (Some [(''arima'', late_forecast)]) ''1y'' True ''arima''
   \<noteq> prepareChartData (Some two_days) (Some []) (Some [(''arima'', late_forecast)]) ''1y'' False ''arima''"
  by (simp add: prepareChartData_def Let_def prediction_datasets_def)

lemma inputs_in_frame:
  "inputs_in st h p \<Longrightarrow> length st \<le> length st' \<Longrightarrow> inputs_in st' h p"
  by (auto simp: inputs_in_def forecast_in_def list_all_iff split: option.splits)

lemma read_historical_frame:
  "inputs_in st (Some h) p \<Longrightarrow> \<forall>r<length st. st' ! r = st ! r \<Longrightarrow>
   read_historical st' h = read_historical st h"
  by (simp add: inputs_in_def read_historical_def)

lemma read_predictions_frame:
  "inputs_in st h (Some p) \<Longrightarrow> \<forall>r<length st. st' ! r = st ! r \<Longrightarrow>
   read_predictions st' p = read_predictions st p"
  by (auto simp: inputs_in_def read_predictions_def list_all_iff read_forecast_frame)

text \<open>
  Claim C6, as amended. Two calls whose inputs hold the same historical data and the same
  prediction map, with the same ticks, time range, toggle and selected model, return
  charts with the same contents, whatever stores they run in; and each call leaves every
  array that existed before it as it was, the input arrays among them.
\<close>

theorem assembler_deterministic_and_pure:
  assumes "inputs_in st historicalData preds" and "inputs_in st' historicalData' preds'"
    and "map_option (read_historical st) historicalData
           = map_option (read_historical st') historicalData'"
    and "map_option (read_predictions st) preds = map_option (read_predictions st') preds'"
  shows "map_option (read_chart (snd (prepareChartData_st historicalData rtData preds timeRange sp m st)))
           (fst (prepareChartData_st historicalData rtData preds timeRange sp m st))
         = map_option (read_chart (snd (prepareChartData_st historicalData' rtData preds' timeRange sp m st')))
             (fst (prepareChartData_st historicalData' rtData preds' timeRange sp m st')) \<and>
         length st \<le> length (snd (prepareChartData_st historicalData rtData preds timeRange sp m st)) \<and>
         (\<forall>r<length st.
            snd (prepareChartData_st historicalData rtData preds timeRange sp m st) ! r = st ! r) \<and>
         length st' \<le> length (snd (prepareChartData_st historicalData' rtData preds' timeRange sp m st')) \<and>
         (\<forall>r<length st'.
            snd (prepareChartData_st historicalData' rtData preds' timeRange sp m st') ! r = st' ! r)"
  using prepareChartData_st_sound [OF assms(1), of rtData timeRange sp m]
    prepareChartData_st_sound [OF assms(2), of rtData timeRange sp m] assms(3,4)
  by simp

text \<open>The same call twice in a row: the second runs in the store the first has left.\<close>

theorem assembler_deterministic_and_pure_witness:
  "map_option (read_chart (snd (prepareChartData_st (Some hist0) (Some [aapl_tick 4, aapl_tick 5])
        (Some preds0) ''1m'' True ''arima''
        (snd (prepareChartData_st (Some hist0) (Some [aapl_tick 4, aapl_tick 5]) (Some preds0)
               ''1m'' True ''arima'' store0)))))
     (fst (prepareChartData_st (Some hist0) (Some [aapl_tick 4, aapl_tick 5])
        (Some preds0) ''1m'' True ''arima''
        (snd (prepareChartData_st (Some hist0) (Some [aapl_tick 4, aapl_tick 5]) (Some preds0)
               ''1m'' True ''arima'' store0))))
   = map_option (read_chart (snd (prepareChartData_st (Some hist0) (Some [aapl_tick 4, aapl_tick 5])
        (Some preds0) ''1m'' True ''arima'' store0)))
      (fst (prepareChartData_st (Some hist0) (Some [aapl_tick 4, aapl_tick 5])
        (Some preds0) ''1m'' True ''arima'' store0)) \<and>
   take (length store0) (snd (prepareChartData_st (Some hist0) (Some [aapl_tick 4, aapl_tick 5])
        (Some preds0) ''1m'' True ''arima''
        (snd (prepareChartData_st (Some hist0) (Some [aapl_tick 4, aapl_tick 5]) (Some preds0)
               ''1m'' True ''arima'' store0)))) = store0"
proof -
  let ?rt = "Some [aapl_tick 4, aapl_tick 5]"
  let ?st1 = "snd (prepareChartData_st (Some hist0) ?rt (Some preds0) ''1m'' True ''arima'' store0)"
  let ?st2 = "snd (prepareChartData_st (Some hist0) ?rt (Some preds0) ''1m'' True ''arima'' ?st1)"
  have 0: "inputs_in store0 (Some hist0) (Some preds0)"
    by (simp add: inputs_in_def forecast_in_def store0_def hist0_def preds0_def)
  have first: "length store0 \<le> length ?st1" "\<forall>r<length store0. ?st1 ! r = store0 ! r"
    using assembler_deterministic_and_pure [OF 0 0 refl refl, of ?rt "''1m''" True "''arima''"]
    by blast+
  have 1: "inputs_in ?st1 (Some hist0) (Some preds0)"
    using 0 first(1) by (rule inputs_in_frame)
  have 3: "map_option (read_historical ?st1) (Some hist0)
             = map_option (read_historical store0) (Some hist0)"
    using read_historical_frame [OF 0 first(2)] by simp
  have 4: "map_option (read_predictions ?st1) (Some preds0)
             = map_option (read_predictions store0) (Some preds0)"
    using read_predictions_frame [OF 0 first(2)] by simp
  note second = assembler_deterministic_and_pure [OF 1 0 3 4, of ?rt "''1m''" True "''arima''"]
  have "\<forall>r<length store0. ?st2 ! r = store0 ! r"
    using second first by auto
  moreover have "length store0 \<le> length ?st2"
    using second first(1) by linarith
  ultimately have "take (length store0) ?st2 = store0"
    by (simp add: list_eq_iff_nth_eq)
  with second show ?thesis by blast
qed

end
